theory Spec2Isabelle
  imports Main "HOL-Library.Word" "HOL-Library.Signed_Division"
begin

unbundle bit_operations_syntax

section \<open>Common vocabulary\<close>

text \<open>
  Go's \<^verbatim>\<open>int64\<close> is a 64-bit word: \<open>+\<close> wraps, \<open><s\<close> and \<open>\<le>s\<close> compare the
  two's-complement readings, \<open>signed_drop_bit\<close> is the arithmetic \<^verbatim>\<open>>>\<close> and
  \<open>drop_bit\<close> the logical one (\<^verbatim>\<open>uint64(l) >> n\<close>). Go's \<^verbatim>\<open>int\<close> only ever holds
  small counts and tags here and is read as \<open>int\<close>. An \<^verbatim>\<open>error\<close> value is identified
  with its message, \<^verbatim>\<open>nil\<close> is \<open>None\<close>.
\<close>

type_synonym int64 = "64 word"
type_synonym byte = "8 word"
type_synonym error = string

text \<open>A call either returns a value or panics with a message.\<close>

datatype 'a outcome = Panic string | Return 'a

text \<open>
  Statements that may panic and that write to the process log (\<^verbatim>\<open>log.Print\<close>) are
  functions from the log so far to an outcome and the log afterwards; \<open>and_then\<close>
  is the semicolon between two such statements.
\<close>

type_synonym 'a logged = "string list \<Rightarrow> 'a outcome \<times> string list"

definition ret :: "'a \<Rightarrow> 'a logged" where
  "ret x lg = (Return x, lg)"

definition panic :: "string \<Rightarrow> 'a logged" where
  "panic msg lg = (Panic msg, lg)"

definition log_Print :: "string \<Rightarrow> unit logged" where
  "log_Print msg lg = (Return (), lg @ [msg])"

definition and_then :: "'a logged \<Rightarrow> ('a \<Rightarrow> 'b logged) \<Rightarrow> 'b logged" where
  "and_then m f lg =
     (case m lg of
        (Panic msg, lg') \<Rightarrow> (Panic msg, lg')
      | (Return x, lg') \<Rightarrow> f x lg')"

text \<open>\<^verbatim>\<open>assert\<close> of the store package: panics with a fixed message.\<close>

definition assert :: "bool \<Rightarrow> unit outcome" where
  "assert ok = (if \<not> ok then Panic ''assert fail'' else Return ())"

text \<open>
  Modelled from the spec: \<^verbatim>\<open>assert2(ok, msg)\<close> is called by the store package but its
  declaration is not among the sources. The spec says that a violated precondition
  "fails with an invalid-argument condition"; as its sibling \<open>assert\<close> does, it panics,
  here with the message it was given.
\<close>

definition assert2 :: "bool \<Rightarrow> string \<Rightarrow> unit outcome" where
  "assert2 ok msg = (if \<not> ok then Panic msg else Return ())"

text \<open>The \<^verbatim>\<open>%v\<close> rendering of an integer: decimal digits, a minus sign first if negative.\<close>

definition digit_char :: "nat \<Rightarrow> char" where
  "digit_char d = ''0123456789'' ! d"

fun show_nat :: "nat \<Rightarrow> string" where
  "show_nat n = (if n < 10 then [digit_char n] else show_nat (n div 10) @ [digit_char (n mod 10)])"

declare show_nat.simps [simp del]

definition show_int :: "int \<Rightarrow> string" where
  "show_int i = (if i < 0 then CHR ''-'' # show_nat (nat (- i)) else show_nat (nat i))"

definition fmt_int64 :: "int64 \<Rightarrow> string" where
  "fmt_int64 w = show_int (sint w)"

section \<open>util: bit operations\<close>

definition BYTE_COUNTS :: "int list" where
  "BYTE_COUNTS = [
    0, 1, 1, 2, 1, 2, 2, 3, 1, 2, 2, 3, 2, 3, 3, 4,
    1, 2, 2, 3, 2, 3, 3, 4, 2, 3, 3, 4, 3, 4, 4, 5,
    1, 2, 2, 3, 2, 3, 3, 4, 2, 3, 3, 4, 3, 4, 4, 5,
    2, 3, 3, 4, 3, 4, 4, 5, 3, 4, 4, 5, 4, 5, 5, 6,
    1, 2, 2, 3, 2, 3, 3, 4, 2, 3, 3, 4, 3, 4, 4, 5,
    2, 3, 3, 4, 3, 4, 4, 5, 3, 4, 4, 5, 4, 5, 5, 6,
    2, 3, 3, 4, 3, 4, 4, 5, 3, 4, 4, 5, 4, 5, 5, 6,
    3, 4, 4, 5, 4, 5, 5, 6, 4, 5, 5, 6, 5, 6, 6, 7,
    1, 2, 2, 3, 2, 3, 3, 4, 2, 3, 3, 4, 3, 4, 4, 5,
    2, 3, 3, 4, 3, 4, 4, 5, 3, 4, 4, 5, 4, 5, 5, 6,
    2, 3, 3, 4, 3, 4, 4, 5, 3, 4, 4, 5, 4, 5, 5, 6,
    3, 4, 4, 5, 4, 5, 5, 6, 4, 5, 5, 6, 5, 6, 6, 7,
    2, 3, 3, 4, 3, 4, 4, 5, 3, 4, 4, 5, 4, 5, 5, 6,
    3, 4, 4, 5, 4, 5, 5, 6, 4, 5, 5, 6, 5, 6, 6, 7,
    3, 4, 4, 5, 4, 5, 5, 6, 4, 5, 5, 6, 5, 6, 6, 7,
    4, 5, 5, 6, 5, 6, 6, 7, 5, 6, 6, 7, 6, 7, 7, 8]"

text \<open>\<^verbatim>\<open>BitCount(b byte)\<close>: the table entry at \<^verbatim>\<open>b & 0xFF\<close>, always inside the table.\<close>

definition BitCount :: "byte \<Rightarrow> int" where
  "BitCount b = BYTE_COUNTS ! unat (b AND 0xFF)"

text \<open>
  The inner loop of \<^verbatim>\<open>pop_array\<close>: \<^verbatim>\<open>for v > 0 { popCount += BitCount(byte(v & 0xff)); v >>= 8 }\<close>
  with \<open>v\<close> a signed 64-bit value, so \<^verbatim>\<open>>\<close> is the signed comparison and \<^verbatim>\<open>>>=\<close> the
  arithmetic shift. It ends because a positive value shrinks when shifted.
\<close>

function pop_word :: "int64 \<Rightarrow> int \<Rightarrow> int" where
  "pop_word v popCount =
     (if 0 <s v
      then pop_word (signed_drop_bit 8 v) (popCount + BitCount (ucast (v AND 0xff)))
      else popCount)"
  by pat_completeness auto
termination
proof (relation "measure (\<lambda>(v, popCount). nat (sint v))")
  show "wf (measure (\<lambda>(v :: int64, popCount :: int). nat (sint v)))"
    by simp
next
  fix v :: int64 and popCount :: int
  assume "0 <s v"
  then have pos: "0 < sint v"
    by (simp add: word_sless_alt)
  have "sint (signed_drop_bit 8 v) = sint v div 256"
    by (simp add: sint_signed_drop_bit_eq drop_bit_eq_div)
  with pos have "nat (sint (signed_drop_bit 8 v)) < nat (sint v)"
    by simp
  then show "((signed_drop_bit 8 v, popCount + BitCount (ucast (v AND 0xff))), (v, popCount))
      \<in> measure (\<lambda>(v, popCount). nat (sint v))"
    by simp
qed

declare pop_word.simps [simp del]

text \<open>The outer loop, \<^verbatim>\<open>for _, v := range arr\<close>, and \<^verbatim>\<open>pop_array\<close> itself.\<close>

fun pop_array_from :: "int64 list \<Rightarrow> int \<Rightarrow> int" where
  "pop_array_from [] popCount = popCount"
| "pop_array_from (v # arr) popCount = pop_array_from arr (pop_word v popCount)"

definition pop_array :: "int64 list \<Rightarrow> int" where
  "pop_array arr = pop_array_from arr 0"

text \<open>
  What the specification asks of the population count, in its own words: the sum of
  \<open>BitCount\<close> applied to every byte of every word, least significant byte first.
\<close>

definition word_bytes :: "int64 \<Rightarrow> byte list" where
  "word_bytes v = map (\<lambda>i. ucast (drop_bit (8 * i) v)) [0..<8]"

definition PopulationCount_spec :: "int64 list \<Rightarrow> int" where
  "PopulationCount_spec words = sum_list (map (\<lambda>v. sum_list (map BitCount (word_bytes v))) words)"

text \<open>\<^verbatim>\<open>(l >> 63) ^ (l << 1)\<close> and \<^verbatim>\<open>int64(uint64(l)>>1) ^ -(l & 1)\<close>.\<close>

definition ZigZagEncodeLong :: "int64 \<Rightarrow> int64" where
  "ZigZagEncodeLong l = signed_drop_bit 63 l XOR push_bit 1 l"

definition ZigZagDecodeLong :: "int64 \<Rightarrow> int64" where
  "ZigZagDecodeLong l = drop_bit 1 l XOR - (l AND 1)"


section \<open>store: IOContext\<close>

type_synonym IOContextType = int

definition IO_CONTEXT_TYPE_MERGE :: IOContextType where
  "IO_CONTEXT_TYPE_MERGE = 1"

definition IO_CONTEXT_TYPE_READ :: IOContextType where
  "IO_CONTEXT_TYPE_READ = 2"

definition IO_CONTEXT_TYPE_FLUSH :: IOContextType where
  "IO_CONTEXT_TYPE_FLUSH = 3"

definition IO_CONTEXT_TYPE_DEFAULT :: IOContextType where
  "IO_CONTEXT_TYPE_DEFAULT = 4"

record FlushInfo =
  NumDocs :: int
  EstimatedSegmentSize :: int64

record MergeInfo =
  TotalDocCount :: int
  EstimatedMergeBytes :: int64
  IsExternal :: bool
  MergeMaxNumSegments :: int

text \<open>
  The two info fields are pointers: \<open>None\<close> is \<^verbatim>\<open>nil\<close>. A field left out of a struct
  literal has its zero value. (The field \<^verbatim>\<open>context\<close> is spelt \<open>context'\<close>.)
\<close>

record IOContext =
  context' :: IOContextType
  MergeInfo :: "MergeInfo option"
  FlushInfo :: "FlushInfo option"
  readOnce :: bool

definition NewIOContextForFlush :: "FlushInfo option \<Rightarrow> IOContext outcome" where
  "NewIOContextForFlush flushInfo =
     (case assert (flushInfo \<noteq> None) of
        Panic msg \<Rightarrow> Panic msg
      | Return _ \<Rightarrow>
          Return \<lparr>context' = IO_CONTEXT_TYPE_FLUSH, MergeInfo = None,
                  FlushInfo = flushInfo, readOnce = False\<rparr>)"

definition NewIOContextFromType :: "IOContextType \<Rightarrow> IOContext outcome" where
  "NewIOContextFromType context =
     (case assert2 (context \<noteq> IO_CONTEXT_TYPE_MERGE)
             ''Use NewIOContextForMerge() to create a MERGE IOContext'' of
        Panic msg \<Rightarrow> Panic msg
      | Return _ \<Rightarrow>
     (case assert2 (context \<noteq> IO_CONTEXT_TYPE_FLUSH)
             ''Use NewIOContextForFlush() to create a FLUSH IOContext'' of
        Panic msg \<Rightarrow> Panic msg
      | Return _ \<Rightarrow>
          Return \<lparr>context' = context, MergeInfo = None, FlushInfo = None, readOnce = False\<rparr>))"

definition NewIOContextBool :: "bool \<Rightarrow> IOContext" where
  "NewIOContextBool readOnce' =
     \<lparr>context' = IO_CONTEXT_TYPE_READ, MergeInfo = None, FlushInfo = None, readOnce = readOnce'\<rparr>"

definition NewIOContextForMerge :: "MergeInfo option \<Rightarrow> IOContext outcome" where
  "NewIOContextForMerge mergeInfo =
     (case assert2 (mergeInfo \<noteq> None) ''MergeInfo must not be nil if context is MERGE'' of
        Panic msg \<Rightarrow> Panic msg
      | Return _ \<Rightarrow>
          Return \<lparr>context' = IO_CONTEXT_TYPE_MERGE, MergeInfo = mergeInfo,
                  FlushInfo = None, readOnce = False\<rparr>)"

section \<open>store: Lock\<close>

definition LOCK_POOL_INTERVAL :: int64 where
  "LOCK_POOL_INTERVAL = 1000"

definition LOCK_OBTAIN_WAIT_FOREVER :: int64 where
  "LOCK_OBTAIN_WAIT_FOREVER = - 1"

text \<open>
  \<^verbatim>\<open>LockImpl\<close> holds the concrete lock (\<^verbatim>\<open>self\<close>, whatever state the backend keeps) and
  the \<^verbatim>\<open>failureReason\<close> that, by its comment, an obtain "may set with the root cause".
  The backend's \<^verbatim>\<open>Obtain\<close> is a parameter: it sees the whole \<^verbatim>\<open>LockImpl\<close>, answers
  \<^verbatim>\<open>(ok, err)\<close> and leaves the lock in a new state. A backend whose answers change
  over time keeps its future answers in \<open>self\<close>.
\<close>

record 'b LockImpl =
  self :: 'b
  failureReason :: "error option"

type_synonym 'b Obtain = "'b LockImpl \<Rightarrow> (bool \<times> error option) \<times> 'b LockImpl"

definition NewLockImpl :: "'b \<Rightarrow> 'b LockImpl" where
  "NewLockImpl self' = \<lparr>self = self', failureReason = None\<rparr>"

text \<open>Go's \<^verbatim>\<open>/\<close> on \<^verbatim>\<open>int64\<close> truncates towards zero.\<close>

definition int64_quo :: "int64 \<Rightarrow> int64 \<Rightarrow> int64" where
  "int64_quo a b = word_of_int (sint a sdiv sint b)"

text \<open>
  The message of the time-out error (lines 244 to 248): \<^verbatim>\<open>%v\<close> of the lock, given by the
  parameter \<open>fmt_lock\<close>, followed by the failure reason when there is one.
\<close>

definition timeout_reason :: "('b LockImpl \<Rightarrow> string) \<Rightarrow> 'b LockImpl \<Rightarrow> string" where
  "timeout_reason fmt_lock lock =
     (let reason = ''Lock obtain time out: '' @ fmt_lock lock
      in case failureReason lock of
           Some fr \<Rightarrow> reason @ '': '' @ fr
         | None \<Rightarrow> reason)"

text \<open>
  The polling loop
  \<^verbatim>\<open>for sleepCount := int64(0); !locked; locked, err = lock.self.Obtain() { ... }\<close>.
  Its state is \<open>sleepCount\<close>, the pair \<open>(locked, err)\<close>, the lock, and the milliseconds
  slept so far (the effect of \<^verbatim>\<open>time.Sleep\<close>). With \<^verbatim>\<open>LOCK_OBTAIN_WAIT_FOREVER\<close> and a
  lock that never frees the loop runs forever: the result is then \<open>None\<close>.
\<close>

partial_function (option) obtain_poll ::
  "'b Obtain \<Rightarrow> ('b LockImpl \<Rightarrow> string) \<Rightarrow> int64 \<Rightarrow> int64 \<Rightarrow> int64 \<Rightarrow> bool \<times> error option \<Rightarrow>
     'b LockImpl \<Rightarrow> nat \<Rightarrow> ((bool \<times> error option) \<times> 'b LockImpl \<times> nat) option" where
  "obtain_poll Obtain fmt_lock lockWaitTimeout maxSleepCount sleepCount res lock slept =
     (if fst res then Some (res, lock, slept)
      else if lockWaitTimeout \<noteq> LOCK_OBTAIN_WAIT_FOREVER \<and> maxSleepCount \<le>s sleepCount
      then Some ((fst res, Some (timeout_reason fmt_lock lock)), lock, slept)
      else obtain_poll Obtain fmt_lock lockWaitTimeout maxSleepCount (sleepCount + 1)
             (fst (Obtain lock)) (snd (Obtain lock)) (slept + unat LOCK_POOL_INTERVAL))"

text \<open>
  \<^verbatim>\<open>ObtainWithin\<close>: reset the failure reason, make one attempt, return its error if it
  has one, only then check the time-out argument, and poll.
\<close>

definition ObtainWithin ::
  "'b Obtain \<Rightarrow> ('b LockImpl \<Rightarrow> string) \<Rightarrow> int64 \<Rightarrow> 'b LockImpl \<Rightarrow>
     ((bool \<times> error option) outcome \<times> 'b LockImpl \<times> nat) option" where
  "ObtainWithin Obtain fmt_lock lockWaitTimeout lock0 =
     (let lock1 = lock0\<lparr>failureReason := None\<rparr>;
          res = fst (Obtain lock1);
          lock2 = snd (Obtain lock1)
      in if snd res \<noteq> None then Some (Return res, lock2, 0)
         else
           (case assert2 (0 \<le>s lockWaitTimeout \<or> lockWaitTimeout = LOCK_OBTAIN_WAIT_FOREVER)
                   (''lockWaitTimeout should be LOCK_OBTAIN_WAIT_FOREVER or a non-negative number (got ''
                      @ fmt_int64 lockWaitTimeout @ '')'') of
              Panic msg \<Rightarrow> Some (Panic msg, lock2, 0)
            | Return _ \<Rightarrow>
                map_option (\<lambda>(r, l, t). (Return r, l, t))
                  (obtain_poll Obtain fmt_lock lockWaitTimeout
                     (int64_quo lockWaitTimeout LOCK_POOL_INTERVAL) 0 res lock2 0)))"

section \<open>store: Directory\<close>

text \<open>
  \<^verbatim>\<open>DirectoryImpl\<close> embeds the backend's \<^verbatim>\<open>directoryService\<close> (its state is of type \<open>'s\<close>)
  and points to a lock factory (\<open>None\<close> is \<^verbatim>\<open>nil\<close>; the factory's state is of type \<open>'f\<close>).
  The backend's \<^verbatim>\<open>OpenInput\<close> and the factory's \<^verbatim>\<open>Clear\<close> are parameters.
\<close>

record ('s, 'f) DirectoryImpl =
  directoryService :: 's
  IsOpen :: bool
  lockFactory :: "'f option"

definition NewDirectoryImpl :: "'s \<Rightarrow> ('s, 'f) DirectoryImpl" where
  "NewDirectoryImpl self' = \<lparr>directoryService = self', IsOpen = True, lockFactory = None\<rparr>"

definition ClearLock ::
  "('f \<Rightarrow> string \<Rightarrow> (error option \<times> 'f) outcome) \<Rightarrow> ('s, 'f) DirectoryImpl \<Rightarrow> string \<Rightarrow>
     (error option \<times> ('s, 'f) DirectoryImpl) outcome" where
  "ClearLock Clear d name =
     (case lockFactory d of
        Some f \<Rightarrow>
          (case Clear f name of
             Panic msg \<Rightarrow> Panic msg
           | Return (err, f') \<Rightarrow> Return (err, d\<lparr>lockFactory := Some f'\<rparr>))
      | None \<Rightarrow> Return (None, d))"

definition EnsureOpen :: "('s, 'f) DirectoryImpl \<Rightarrow> unit logged" where
  "EnsureOpen d =
     (if \<not> IsOpen d
      then and_then (log_Print ''This Directory is closed.'') (\<lambda>_. panic ''this Directory is closed'')
      else ret ())"

text \<open>The default slicer wraps the one reader it was given.\<close>

record 'r simpleIndexInputSlicer =
  base :: 'r

text \<open>
  \<^verbatim>\<open>CreateSlicer\<close>, statement by statement: the panic is its first statement, and the
  rest of the body follows it.
\<close>

definition CreateSlicer ::
  "('s \<Rightarrow> string \<Rightarrow> IOContext \<Rightarrow> error + 'r) \<Rightarrow> ('s, 'f) DirectoryImpl \<Rightarrow> string \<Rightarrow> IOContext \<Rightarrow>
     (error + 'r simpleIndexInputSlicer) logged" where
  "CreateSlicer OpenInput d name context =
     and_then (panic ''Should be overrided, I guess'') (\<lambda>_ :: unit.
     and_then (EnsureOpen d) (\<lambda>_.
       (case OpenInput (directoryService d) name context of
          Inl err \<Rightarrow> ret (Inl err)
        | Inr base' \<Rightarrow> ret (Inr \<lparr>base = base'\<rparr>))))"

section \<open>store: SlicedIndexInput\<close>

text \<open>
  A \<^verbatim>\<open>SlicedIndexInput\<close> embeds a \<^verbatim>\<open>BufferedIndexInput\<close> (state of type \<open>'bi\<close>) and holds
  the base reader (state of type \<open>'r\<close>) and the window. \<^verbatim>\<open>BufferedIndexInput\<close>, its
  constructor, its \<^verbatim>\<open>FilePointer\<close>, the constant \<^verbatim>\<open>BUFFER_SIZE\<close> and the base reader's
  \<^verbatim>\<open>Seek\<close> and \<^verbatim>\<open>ReadBytesBuffered\<close> are declared outside the sources: they are
  parameters. The field \<^verbatim>\<open>length\<close> is spelt \<open>length'\<close>. The back references
  \<^verbatim>\<open>super.SeekReader = ans\<close> and \<^verbatim>\<open>super.LengthCloser = ans\<close> only tell the buffered
  input which hooks to call; the hooks are the functions below.
\<close>

record ('bi, 'r) SlicedIndexInput =
  BufferedIndexInput :: 'bi
  base :: 'r
  fileOffset :: int64
  length' :: int64

definition newSlicedIndexInputBySize ::
  "(string \<Rightarrow> int \<Rightarrow> 'bi) \<Rightarrow> ('r \<Rightarrow> string) \<Rightarrow> string \<Rightarrow> 'r \<Rightarrow> int64 \<Rightarrow> int64 \<Rightarrow> int \<Rightarrow>
     ('bi, 'r) SlicedIndexInput" where
  "newSlicedIndexInputBySize newBufferedIndexInputBySize fmt_base desc base' fileOffset' len bufferSize =
     \<lparr>BufferedIndexInput =
        newBufferedIndexInputBySize
          (''SlicedIndexInput('' @ desc @ '' in '' @ fmt_base base' @ '' slice=''
             @ fmt_int64 fileOffset' @ '':'' @ fmt_int64 (fileOffset' + len) @ '')'')
          bufferSize,
      base = base', fileOffset = fileOffset', length' = len\<rparr>"

definition newSlicedIndexInput ::
  "(string \<Rightarrow> int \<Rightarrow> 'bi) \<Rightarrow> int \<Rightarrow> ('r \<Rightarrow> string) \<Rightarrow> string \<Rightarrow> 'r \<Rightarrow> int64 \<Rightarrow> int64 \<Rightarrow>
     ('bi, 'r) SlicedIndexInput" where
  "newSlicedIndexInput newBufferedIndexInputBySize BUFFER_SIZE fmt_base desc base' fileOffset' len =
     newSlicedIndexInputBySize newBufferedIndexInputBySize fmt_base desc base' fileOffset' len BUFFER_SIZE"

definition openSlice ::
  "(string \<Rightarrow> int \<Rightarrow> 'bi) \<Rightarrow> int \<Rightarrow> ('r \<Rightarrow> string) \<Rightarrow> 'r simpleIndexInputSlicer \<Rightarrow>
     string \<Rightarrow> int64 \<Rightarrow> int64 \<Rightarrow> ('bi, 'r) SlicedIndexInput" where
  "openSlice newBufferedIndexInputBySize BUFFER_SIZE fmt_base is desc offset len =
     newSlicedIndexInput newBufferedIndexInputBySize BUFFER_SIZE fmt_base
       (''SlicedIndexInput('' @ desc @ '' in '' @ fmt_base (simpleIndexInputSlicer.base is) @ '')'')
       (simpleIndexInputSlicer.base is) offset len"

definition openFullSlice :: "'r simpleIndexInputSlicer \<Rightarrow> 'r" where
  "openFullSlice is = simpleIndexInputSlicer.base is"

text \<open>
  \<^verbatim>\<open>readInternal(buf)\<close> fills the caller's slice and returns an error or \<^verbatim>\<open>nil\<close>; it may
  move the base reader. The model returns the error, the contents of \<open>buf\<close> afterwards
  and the reader afterwards. \<open>Seek\<close> gives the base reader after the seek (whatever
  \<^verbatim>\<open>Seek\<close> returns is dropped by the call); \<open>ReadBytesBuffered\<close> gives the error, the
  filled buffer and the base reader after the read. \<^verbatim>\<open>start+int64(len(buf))\<close> is an
  \<^verbatim>\<open>int64\<close> sum and \<^verbatim>\<open>></in.length\<close> a signed comparison.
\<close>

definition readInternal ::
  "('bi \<Rightarrow> int64) \<Rightarrow> ('r \<Rightarrow> int64 \<Rightarrow> 'r) \<Rightarrow> ('r \<Rightarrow> byte list \<Rightarrow> bool \<Rightarrow> error option \<times> byte list \<times> 'r) \<Rightarrow>
     (('bi, 'r) SlicedIndexInput \<Rightarrow> string) \<Rightarrow> ('bi, 'r) SlicedIndexInput \<Rightarrow> byte list \<Rightarrow>
     error option \<times> byte list \<times> ('bi, 'r) SlicedIndexInput" where
  "readInternal FilePointer Seek ReadBytesBuffered fmt_in in' buf =
     (let start = FilePointer (BufferedIndexInput in')
      in if length' in' <s start + of_nat (length buf)
         then (Some (''read past EOF: '' @ fmt_in in'), buf, in')
         else
           (let sought = Seek (base in') (fileOffset in' + start);
                res = ReadBytesBuffered sought buf False
            in (fst res, fst (snd res), in'\<lparr>base := snd (snd res)\<rparr>)))"

definition seekInternal :: "('bi, 'r) SlicedIndexInput \<Rightarrow> int64 \<Rightarrow> error option" where
  "seekInternal in' pos = None"

definition Length :: "('bi, 'r) SlicedIndexInput \<Rightarrow> int64" where
  "Length in' = length' in'"

section \<open>Concrete backends for the examples\<close>

text \<open>
  Three lock backends that never grant the lock and count their attempts in \<open>self\<close>:
  one that just answers \<^verbatim>\<open>(false, nil)\<close>, one that answers with an error, and one that
  records why in \<^verbatim>\<open>failureReason\<close>.
\<close>

definition busy_Obtain :: "nat Obtain" where
  "busy_Obtain lock = ((False, None), lock\<lparr>self := Suc (self lock)\<rparr>)"

definition failing_Obtain :: "nat Obtain" where
  "failing_Obtain lock = ((False, Some ''lock backend failure''), lock\<lparr>self := Suc (self lock)\<rparr>)"

definition reporting_Obtain :: "nat Obtain" where
  "reporting_Obtain lock =
     ((False, None), lock\<lparr>self := Suc (self lock), failureReason := Some ''held by another process''\<rparr>)"

text \<open>
  A fourth one answers \<^verbatim>\<open>(false, nil)\<close> at its first attempt and \<^verbatim>\<open>(false, err)\<close> from
  then on, and never touches \<^verbatim>\<open>failureReason\<close>.
\<close>

definition flaky_Obtain :: "nat Obtain" where
  "flaky_Obtain lock =
     ((False, if self lock = 0 then None else Some ''disk error''), lock\<lparr>self := Suc (self lock)\<rparr>)"

definition fmt_lock0 :: "nat LockImpl \<Rightarrow> string" where
  "fmt_lock0 lock = ''lock''"

text \<open>\<^verbatim>\<open>FSLockFactory.Clear\<close> (lines 303 to 305) panics whatever the name.\<close>

definition FSLockFactory_Clear :: "string \<Rightarrow> string \<Rightarrow> (error option \<times> string) outcome" where
  "FSLockFactory_Clear f name = Panic ''invalid''"

text \<open>A backend whose \<^verbatim>\<open>OpenInput\<close> always succeeds, with reader number 7.\<close>

definition open_ok :: "unit \<Rightarrow> string \<Rightarrow> IOContext \<Rightarrow> error + nat" where
  "open_ok svc name context = Inr 7"

definition closed_directory :: "(unit, string) DirectoryImpl" where
  "closed_directory = (NewDirectoryImpl ())\<lparr>IsOpen := False\<rparr>"

text \<open>
  A base reader over a file of 100 bytes whose byte at position \<open>p\<close> is \<open>p\<close>: its state
  is its position. The buffered input's state is just its file pointer.
\<close>

definition file_Seek :: "int64 \<Rightarrow> int64 \<Rightarrow> int64" where
  "file_Seek r pos = pos"

definition file_ReadBytesBuffered :: "int64 \<Rightarrow> byte list \<Rightarrow> bool \<Rightarrow> error option \<times> byte list \<times> int64" where
  "file_ReadBytesBuffered r buf useBuffer =
     (if 100 < unat r + length buf then (Some ''read past EOF'', buf, r)
      else (None, map (\<lambda>i. ucast (r + of_nat i)) [0..<length buf], r + of_nat (length buf)))"

definition file_FilePointer :: "int64 \<Rightarrow> int64" where
  "file_FilePointer bi = bi"

definition fmt_slice0 :: "(int64, int64) SlicedIndexInput \<Rightarrow> string" where
  "fmt_slice0 in' = ''slice''"

section \<open>Bit operations: population count\<close>

text \<open>
  Claim C1 (population count of every word, words with the sign bit set included). The
  loop condition \<^verbatim>\<open>v > 0\<close> is a signed comparison, so a word whose sign bit is set is
  skipped altogether: on the one-word array holding \<open>-1\<close> the function returns 0, where
  the sum of the bit counts of its eight bytes is 64, and on the array holding the
  least 64-bit integer it returns 0 where the sum is 1.
\<close>

theorem pop_array_skips_negative_words:
  "pop_array [- 1] = 0 \<and> PopulationCount_spec [- 1] = 64
   \<and> pop_array [0x8000000000000000] = 0 \<and> PopulationCount_spec [0x8000000000000000] = 1"
proof -
  have "pop_array [- 1] = 0"
    by (simp add: pop_array_def pop_word.simps)
  moreover have "PopulationCount_spec [- 1] = 64"
    by code_simp
  moreover have "pop_array [0x8000000000000000] = 0"
    by (simp add: pop_array_def pop_word.simps word_sless_alt)
  moreover have "PopulationCount_spec [0x8000000000000000] = 1"
    by code_simp
  ultimately show ?thesis
    by simp
qed

text \<open>
  The defect is confined to words with the sign bit set: on an array of non-negative
  words the two loops do compute the sum of the bit counts of all bytes.
\<close>

lemma word_bytes_unfold:
  "word_bytes v = [ucast v, ucast (drop_bit 8 v), ucast (drop_bit 16 v), ucast (drop_bit 24 v),
     ucast (drop_bit 32 v), ucast (drop_bit 40 v), ucast (drop_bit 48 v), ucast (drop_bit 56 v)]"
  by (simp add: word_bytes_def upt_rec)

lemma BitCount_0: "BitCount 0 = 0"
  by (simp add: BitCount_def BYTE_COUNTS_def)

lemma drop_bit_64: "drop_bit 64 (v :: int64) = 0"
  by (rule bit_word_eqI) (simp add: bit_drop_bit_eq)

lemma ucast_low_byte: "(ucast (v AND 0xff :: int64) :: byte) = ucast v"
proof -
  have "(0xff :: int64) = mask 8"
    by (simp add: mask_eq_exp_minus_1)
  then have "v AND 0xff = take_bit 8 v"
    by (simp only: take_bit_eq_mask)
  then show ?thesis
    by (simp only:) (rule bit_word_eqI, auto simp: bit_simps)
qed

lemma sint_0_int64: "sint (v :: int64) = 0 \<Longrightarrow> v = 0"
proof -
  assume "sint v = 0"
  then have "word_of_int (sint v) = (0 :: int64)"
    by (simp only: word_of_int_0)
  then show "v = 0"
    by simp
qed

lemma byte_sum_step:
  "sum_list (map BitCount (word_bytes v)) =
     BitCount (ucast (v AND 0xff)) + sum_list (map BitCount (word_bytes (drop_bit 8 v)))"
  by (simp add: word_bytes_unfold ucast_low_byte BitCount_0 drop_bit_64)

lemma pos_shift:
  fixes v :: int64
  assumes "0 <s v"
  shows "signed_drop_bit 8 v = drop_bit 8 v" and "0 \<le>s signed_drop_bit 8 v"
proof -
  from assms have pos: "0 < sint v"
    by (simp add: word_sless_alt)
  then have "\<not> bit v 63"
    using bit_last_iff [of v] by simp
  then show "signed_drop_bit 8 v = drop_bit 8 v"
    by (intro bit_word_eqI)
      (auto simp: bit_signed_drop_bit_iff bit_drop_bit_eq dest: bit_imp_le_length)
  have "sint (signed_drop_bit 8 v) = sint v div 256"
    by (simp add: sint_signed_drop_bit_eq drop_bit_eq_div)
  with pos show "0 \<le>s signed_drop_bit 8 v"
    by (simp add: word_sle_eq)
qed

lemma pop_word_nonneg:
  "0 \<le>s v \<Longrightarrow> pop_word v popCount = popCount + sum_list (map BitCount (word_bytes v))"
proof (induction v popCount rule: pop_word.induct)
  case (1 v popCount)
  show ?case
  proof (cases "0 <s v")
    case True
    have "pop_word v popCount =
        pop_word (signed_drop_bit 8 v) (popCount + BitCount (ucast (v AND 0xff)))"
      using True by (subst pop_word.simps) simp
    also have "\<dots> = popCount + BitCount (ucast (v AND 0xff))
        + sum_list (map BitCount (word_bytes (signed_drop_bit 8 v)))"
      using True by (intro "1.IH" pos_shift)
    also have "\<dots> = popCount + sum_list (map BitCount (word_bytes v))"
      using byte_sum_step [of v] pos_shift(1) [OF True] by simp
    finally show ?thesis .
  next
    case False
    with "1.prems" have "v = 0"
      by (auto simp: word_sle_eq word_sless_alt intro: sint_0_int64)
    then show ?thesis
      by (subst pop_word.simps) (simp add: word_bytes_unfold BitCount_0)
  qed
qed

lemma pop_array_from_nonneg:
  "list_all (\<lambda>v. 0 \<le>s v) arr \<Longrightarrow> pop_array_from arr popCount = popCount + PopulationCount_spec arr"
  by (induction arr arbitrary: popCount) (simp_all add: PopulationCount_spec_def pop_word_nonneg)

lemma pop_array_nonneg:
  "list_all (\<lambda>v. 0 \<le>s v) arr \<Longrightarrow> pop_array arr = PopulationCount_spec arr"
  by (simp add: pop_array_def pop_array_from_nonneg)

section \<open>Bit operations: zigzag\<close>

lemma neg_and_one_int64: "- (x AND 1) = (if bit x 0 then - 1 else (0 :: int64))"
  by (simp add: and_one_eq mod_2_eq_odd bit_0)

lemma bit_double_int64: "bit (v * 2 :: int64) n = (0 < n \<and> n < 64 \<and> bit v (n - 1))"
  using bit_push_bit_iff [of 1 v n] by (auto dest: bit_imp_le_length)

lemma bit_ZigZagEncodeLong_0: "bit (ZigZagEncodeLong v) 0 = bit v 63"
  by (simp add: ZigZagEncodeLong_def bit_xor_iff bit_signed_drop_bit_iff bit_double_int64)

lemma bit_drop_ZigZagEncodeLong:
  "bit (drop_bit (Suc 0) (ZigZagEncodeLong v)) n = (n < 63 \<and> (bit v 63 \<noteq> bit v n))"
  by (auto simp: ZigZagEncodeLong_def bit_drop_bit_eq bit_xor_iff bit_signed_drop_bit_iff
      bit_double_int64 dest: bit_imp_le_length)

text \<open>
  Claim C2: decoding the zigzag encoding of any 64-bit value gives the value back; the
  statement is for every word, the least and the greatest integer, 0 and -1 among them.
\<close>

theorem ZigZagDecodeLong_ZigZagEncodeLong: "ZigZagDecodeLong (ZigZagEncodeLong v) = v"
proof (rule bit_word_eqI)
  fix n
  assume "n < LENGTH(64)"
  then have n: "n < 64"
    by simp
  have "bit (ZigZagDecodeLong (ZigZagEncodeLong v)) n =
     (bit (drop_bit 1 (ZigZagEncodeLong v)) n \<noteq> (bit v 63 \<and> n < 64))"
    by (simp add: ZigZagDecodeLong_def neg_and_one_int64 bit_ZigZagEncodeLong_0 bit_xor_iff)
  also have "\<dots> = bit v n"
    using n by (cases "n = 63") (auto simp: bit_drop_ZigZagEncodeLong)
  finally show "bit (ZigZagDecodeLong (ZigZagEncodeLong v)) n = bit v n" .
qed

section \<open>IOContext constructors\<close>

text \<open>
  Claim C3: the constructors enforce their preconditions. A \<^verbatim>\<open>nil\<close> flush or merge info
  and the kinds MERGE and FLUSH given to \<open>NewIOContextFromType\<close> end in the panic of the
  failed assertion (the invalid-argument condition); the kinds READ and DEFAULT give a
  context with neither merge nor flush info.
\<close>

theorem IOContext_constructors_check_arguments:
  "NewIOContextForFlush None = Panic ''assert fail''
   \<and> NewIOContextForMerge None = Panic ''MergeInfo must not be nil if context is MERGE''
   \<and> NewIOContextFromType IO_CONTEXT_TYPE_MERGE =
        Panic ''Use NewIOContextForMerge() to create a MERGE IOContext''
   \<and> NewIOContextFromType IO_CONTEXT_TYPE_FLUSH =
        Panic ''Use NewIOContextForFlush() to create a FLUSH IOContext''
   \<and> NewIOContextFromType IO_CONTEXT_TYPE_READ =
        Return \<lparr>context' = IO_CONTEXT_TYPE_READ, MergeInfo = None, FlushInfo = None, readOnce = False\<rparr>
   \<and> NewIOContextFromType IO_CONTEXT_TYPE_DEFAULT =
        Return \<lparr>context' = IO_CONTEXT_TYPE_DEFAULT, MergeInfo = None, FlushInfo = None, readOnce = False\<rparr>"
  by (simp add: NewIOContextForFlush_def NewIOContextForMerge_def NewIOContextFromType_def
      assert_def assert2_def IO_CONTEXT_TYPE_MERGE_def IO_CONTEXT_TYPE_FLUSH_def
      IO_CONTEXT_TYPE_READ_def IO_CONTEXT_TYPE_DEFAULT_def)

section \<open>Lock: the polling loop\<close>

text \<open>The three ways through one round of the loop.\<close>

lemma obtain_poll_locked:
  "fst res \<Longrightarrow>
   obtain_poll Obtain fmt_lock t mx sc res lock slept = Some (res, lock, slept)"
  by (subst obtain_poll.simps) simp

lemma obtain_poll_timeout:
  "\<not> fst res \<Longrightarrow> t \<noteq> LOCK_OBTAIN_WAIT_FOREVER \<Longrightarrow> mx \<le>s sc \<Longrightarrow>
   obtain_poll Obtain fmt_lock t mx sc res lock slept =
     Some ((False, Some (timeout_reason fmt_lock lock)), lock, slept)"
  by (subst obtain_poll.simps) simp

lemma obtain_poll_retry:
  "\<not> fst res \<Longrightarrow> t = LOCK_OBTAIN_WAIT_FOREVER \<or> \<not> mx \<le>s sc \<Longrightarrow>
   obtain_poll Obtain fmt_lock t mx sc res lock slept =
     obtain_poll Obtain fmt_lock t mx (sc + 1) (fst (Obtain lock)) (snd (Obtain lock)) (slept + 1000)"
  by (subst obtain_poll.simps) (auto simp: LOCK_POOL_INTERVAL_def)

lemma int64_quo_2500: "int64_quo 2500 LOCK_POOL_INTERVAL = 2"
  by (simp add: int64_quo_def LOCK_POOL_INTERVAL_def signed_divide_int_def)

lemma int64_quo_1000: "int64_quo 1000 LOCK_POOL_INTERVAL = 1"
  by (simp add: int64_quo_def LOCK_POOL_INTERVAL_def signed_divide_int_def)

lemma sle_int64_facts:
  "\<not> (2 :: int64) \<le>s 0" "\<not> (2 :: int64) \<le>s 1" "(2 :: int64) \<le>s 2"
  "\<not> (1 :: int64) \<le>s 0" "(1 :: int64) \<le>s 1"
  "(0 :: int64) \<le>s 2500" "(0 :: int64) \<le>s 1000" "\<not> (0 :: int64) \<le>s - 5" "(- 5 :: int64) <s 0"
  by (simp_all add: word_sle_eq word_sless_alt)

lemma not_forever_facts:
  "(2500 :: int64) \<noteq> LOCK_OBTAIN_WAIT_FOREVER" "(1000 :: int64) \<noteq> LOCK_OBTAIN_WAIT_FOREVER"
  "(- 5 :: int64) \<noteq> LOCK_OBTAIN_WAIT_FOREVER"
  by (simp_all add: LOCK_OBTAIN_WAIT_FOREVER_def)

text \<open>A run of the loop that ends without the lock ended in the time-out branch.\<close>

lemma obtain_poll_unlocked:
  fixes Obtain :: "'b Obtain"
  assumes "obtain_poll Obtain fmt_lock t mx sc res lock slept = Some y"
  shows "\<not> fst (fst y) \<longrightarrow> snd (fst y) = Some (timeout_reason fmt_lock (fst (snd y)))"
proof (rule obtain_poll.raw_induct
    [where P = "\<lambda>Obtain fmt_lock t mx sc res lock slept y.
       \<not> fst (fst y) \<longrightarrow> snd (fst y) = Some (timeout_reason fmt_lock (fst (snd y)))",
     OF _ assms])
  fix poll :: "'b Obtain \<Rightarrow> ('b LockImpl \<Rightarrow> string) \<Rightarrow> int64 \<Rightarrow> int64 \<Rightarrow> int64 \<Rightarrow> bool \<times> error option \<Rightarrow>
     'b LockImpl \<Rightarrow> nat \<Rightarrow> ((bool \<times> error option) \<times> 'b LockImpl \<times> nat) option"
  fix Obtain' :: "'b Obtain" and fmt' t' mx' sc' and res' :: "bool \<times> error option"
    and lock' slept' y'
  assume IH: "\<And>Obtain fmt_lock t mx sc res lock slept y.
       poll Obtain fmt_lock t mx sc res lock slept = Some y \<Longrightarrow>
       \<not> fst (fst y) \<longrightarrow> snd (fst y) = Some (timeout_reason fmt_lock (fst (snd y)))"
    and step: "(if fst res' then Some (res', lock', slept')
      else if t' \<noteq> LOCK_OBTAIN_WAIT_FOREVER \<and> mx' \<le>s sc'
      then Some ((fst res', Some (timeout_reason fmt' lock')), lock', slept')
      else poll Obtain' fmt' t' mx' (sc' + 1) (fst (Obtain' lock')) (snd (Obtain' lock'))
             (slept' + unat LOCK_POOL_INTERVAL)) = Some y'"
  show "\<not> fst (fst y') \<longrightarrow> snd (fst y') = Some (timeout_reason fmt' (fst (snd y')))"
  proof (cases "fst res'")
    case True
    with step show ?thesis
      by auto
  next
    case unlocked: False
    show ?thesis
    proof (cases "t' \<noteq> LOCK_OBTAIN_WAIT_FOREVER \<and> mx' \<le>s sc'")
      case True
      with unlocked step show ?thesis
        by auto
    next
      case False
      with unlocked step have "poll Obtain' fmt' t' mx' (sc' + 1) (fst (Obtain' lock'))
          (snd (Obtain' lock')) (slept' + unat LOCK_POOL_INTERVAL) = Some y'"
        by (simp split: if_splits)
      then show ?thesis
        by (rule IH)
    qed
  qed
qed

text \<open>
  The lock a run of the loop ends with is the lock as the last \<^verbatim>\<open>Obtain\<close> attempt left
  it, and the \<open>locked\<close> it returns is that attempt's answer.
\<close>

lemma obtain_poll_last_attempt:
  fixes Obtain :: "'b Obtain"
  assumes "obtain_poll Obtain fmt_lock t mx sc res lock slept = Some y"
  shows "(\<exists>l. lock = snd (Obtain l) \<and> fst res = fst (fst (Obtain l))) \<longrightarrow>
     (\<exists>l. fst (snd y) = snd (Obtain l) \<and> fst (fst y) = fst (fst (Obtain l)))"
proof (rule obtain_poll.raw_induct
    [where P = "\<lambda>Obtain fmt_lock t mx sc res lock slept y.
       (\<exists>l. lock = snd (Obtain l) \<and> fst res = fst (fst (Obtain l))) \<longrightarrow>
       (\<exists>l. fst (snd y) = snd (Obtain l) \<and> fst (fst y) = fst (fst (Obtain l)))",
     OF _ assms])
  fix poll :: "'b Obtain \<Rightarrow> ('b LockImpl \<Rightarrow> string) \<Rightarrow> int64 \<Rightarrow> int64 \<Rightarrow> int64 \<Rightarrow> bool \<times> error option \<Rightarrow>
     'b LockImpl \<Rightarrow> nat \<Rightarrow> ((bool \<times> error option) \<times> 'b LockImpl \<times> nat) option"
  fix Obtain' :: "'b Obtain" and fmt' t' mx' sc' and res' :: "bool \<times> error option"
    and lock' slept' y'
  assume IH: "\<And>Obtain fmt_lock t mx sc res lock slept y.
       poll Obtain fmt_lock t mx sc res lock slept = Some y \<Longrightarrow>
       (\<exists>l. lock = snd (Obtain l) \<and> fst res = fst (fst (Obtain l))) \<longrightarrow>
       (\<exists>l. fst (snd y) = snd (Obtain l) \<and> fst (fst y) = fst (fst (Obtain l)))"
    and step: "(if fst res' then Some (res', lock', slept')
      else if t' \<noteq> LOCK_OBTAIN_WAIT_FOREVER \<and> mx' \<le>s sc'
      then Some ((fst res', Some (timeout_reason fmt' lock')), lock', slept')
      else poll Obtain' fmt' t' mx' (sc' + 1) (fst (Obtain' lock')) (snd (Obtain' lock'))
             (slept' + unat LOCK_POOL_INTERVAL)) = Some y'"
  show "(\<exists>l. lock' = snd (Obtain' l) \<and> fst res' = fst (fst (Obtain' l))) \<longrightarrow>
     (\<exists>l. fst (snd y') = snd (Obtain' l) \<and> fst (fst y') = fst (fst (Obtain' l)))"
  proof (cases "fst res' \<or> (t' \<noteq> LOCK_OBTAIN_WAIT_FOREVER \<and> mx' \<le>s sc')")
    case True
    with step show ?thesis
      by (auto split: if_splits)
  next
    case False
    with step have next_round: "poll Obtain' fmt' t' mx' (sc' + 1) (fst (Obtain' lock'))
        (snd (Obtain' lock')) (slept' + unat LOCK_POOL_INTERVAL) = Some y'"
      by (simp split: if_splits)
    have "\<exists>l. snd (Obtain' lock') = snd (Obtain' l) \<and> fst (fst (Obtain' lock')) = fst (fst (Obtain' l))"
      by blast
    with IH [OF next_round] show ?thesis
      by blast
  qed
qed

lemma fmt_int64_minus_5: "fmt_int64 (- 5) = ''-5''"
  by (simp add: fmt_int64_def show_int_def show_nat.simps digit_char_def)

lemma busy_Obtain_simps:
  "fst (busy_Obtain l) = (False, None)" "snd (busy_Obtain l) = l\<lparr>self := Suc (self l)\<rparr>"
  by (simp_all add: busy_Obtain_def)

section \<open>Lock: the time-out argument\<close>

text \<open>
  Claim C4 as stated (a negative time-out other than \<^verbatim>\<open>LOCK_OBTAIN_WAIT_FOREVER\<close> fails
  as an invalid argument whatever \<^verbatim>\<open>Obtain\<close> would return) does not hold: the first
  \<^verbatim>\<open>Obtain\<close> attempt is made before the argument is looked at, and when that attempt
  returns an error, \<^verbatim>\<open>ObtainWithin(-5)\<close> returns that error and no invalid-argument
  failure.
\<close>

theorem ObtainWithin_bad_timeout_counterexample:
  "(- 5 :: int64) <s 0 \<and> (- 5 :: int64) \<noteq> LOCK_OBTAIN_WAIT_FOREVER
   \<and> ObtainWithin failing_Obtain fmt_lock0 (- 5) (NewLockImpl 0) =
       Some (Return (False, Some ''lock backend failure''), \<lparr>self = 1, failureReason = None\<rparr>, 0)"
  by (simp add: sle_int64_facts not_forever_facts ObtainWithin_def Let_def failing_Obtain_def
      NewLockImpl_def)

text \<open>
  Claim C4, amended: for a negative time-out other than \<^verbatim>\<open>LOCK_OBTAIN_WAIT_FOREVER\<close>,
  \<^verbatim>\<open>ObtainWithin\<close> makes exactly one \<^verbatim>\<open>Obtain\<close> attempt (with the failure reason
  reset); if the attempt returns an error, that error and the attempt's answer are
  returned; otherwise the call fails with the invalid-argument panic, whether or not the
  attempt got the lock. In both cases nothing was slept and no second attempt made.
\<close>

theorem ObtainWithin_bad_timeout:
  assumes "lockWaitTimeout <s 0" and "lockWaitTimeout \<noteq> LOCK_OBTAIN_WAIT_FOREVER"
  shows "ObtainWithin Obtain fmt_lock lockWaitTimeout lock =
     Some (if snd (fst (Obtain (lock\<lparr>failureReason := None\<rparr>))) \<noteq> None
           then Return (fst (Obtain (lock\<lparr>failureReason := None\<rparr>)))
           else Panic (''lockWaitTimeout should be LOCK_OBTAIN_WAIT_FOREVER or a non-negative number (got ''
                      @ fmt_int64 lockWaitTimeout @ '')''),
           snd (Obtain (lock\<lparr>failureReason := None\<rparr>)), 0)"
proof -
  from assms(1) have "\<not> 0 \<le>s lockWaitTimeout"
    by (simp add: word_sle_eq word_sless_alt)
  with assms(2) show ?thesis
    by (simp add: ObtainWithin_def Let_def assert2_def)
qed

theorem ObtainWithin_bad_timeout_witness:
  "(- 5 :: int64) <s 0 \<and> (- 5 :: int64) \<noteq> LOCK_OBTAIN_WAIT_FOREVER
   \<and> ObtainWithin busy_Obtain fmt_lock0 (- 5) (NewLockImpl 0) =
       Some (Panic ''lockWaitTimeout should be LOCK_OBTAIN_WAIT_FOREVER or a non-negative number (got -5)'',
             \<lparr>self = 1, failureReason = None\<rparr>, 0)"
  using ObtainWithin_bad_timeout [of "- 5" busy_Obtain fmt_lock0 "NewLockImpl 0"]
  by (simp add: sle_int64_facts not_forever_facts busy_Obtain_simps NewLockImpl_def fmt_int64_minus_5)

section \<open>Lock: the time-out error\<close>

text \<open>
  Claim C5: when \<^verbatim>\<open>ObtainWithin\<close> times out, the error it returns includes the most
  recent failure reason whenever there is one. A call whose first attempt returned no
  error and that comes back without the lock has timed out. Its error is then the
  time-out message built from the lock it ends with; when that lock holds a failure
  reason, the message ends with it; and that lock is the lock as a failed \<^verbatim>\<open>Obtain\<close>
  attempt, the last one, left it, so the reason is the most recent one recorded.
\<close>

theorem ObtainWithin_timeout_reason:
  fixes Obtain :: "'b Obtain"
  assumes run: "ObtainWithin Obtain fmt_lock lockWaitTimeout lock = Some (Return (False, err), lock', slept)"
    and first: "snd (fst (Obtain (lock\<lparr>failureReason := None\<rparr>))) = None"
  shows "err = Some (timeout_reason fmt_lock lock')
     \<and> (\<forall>fr. failureReason lock' = Some fr \<longrightarrow>
           err = Some (''Lock obtain time out: '' @ fmt_lock lock' @ '': '' @ fr))
     \<and> (\<exists>l. lock' = snd (Obtain l) \<and> \<not> fst (fst (Obtain l)))"
proof -
  define lock1 where "lock1 = lock\<lparr>failureReason := None\<rparr>"
  from run first have poll: "obtain_poll Obtain fmt_lock lockWaitTimeout
      (int64_quo lockWaitTimeout LOCK_POOL_INTERVAL) 0 (fst (Obtain lock1)) (snd (Obtain lock1)) 0
        = Some ((False, err), lock', slept)"
    by (auto simp: ObtainWithin_def Let_def assert2_def lock1_def split: if_splits)
  from obtain_poll_unlocked [OF poll] have msg: "err = Some (timeout_reason fmt_lock lock')"
    by simp
  have "\<exists>l. snd (Obtain lock1) = snd (Obtain l) \<and> fst (fst (Obtain lock1)) = fst (fst (Obtain l))"
    by blast
  with obtain_poll_last_attempt [OF poll]
  have last: "\<exists>l. lock' = snd (Obtain l) \<and> \<not> fst (fst (Obtain l))"
    by simp
  from msg have "\<forall>fr. failureReason lock' = Some fr \<longrightarrow>
      err = Some (''Lock obtain time out: '' @ fmt_lock lock' @ '': '' @ fr)"
    by (simp add: timeout_reason_def)
  with msg last show ?thesis
    by blast
qed

lemma reporting_run:
  "ObtainWithin reporting_Obtain fmt_lock0 1000 (NewLockImpl 0) =
     Some (Return (False, Some ''Lock obtain time out: lock: held by another process''),
           \<lparr>self = 2, failureReason = Some ''held by another process''\<rparr>, 1000)"
  by (simp add: ObtainWithin_def Let_def assert2_def sle_int64_facts not_forever_facts
      int64_quo_1000 obtain_poll_retry obtain_poll_timeout reporting_Obtain_def NewLockImpl_def
      timeout_reason_def fmt_lock0_def)

theorem ObtainWithin_timeout_reason_witness:
  "ObtainWithin reporting_Obtain fmt_lock0 1000 (NewLockImpl 0) =
     Some (Return (False, Some ''Lock obtain time out: lock: held by another process''),
           \<lparr>self = 2, failureReason = Some ''held by another process''\<rparr>, 1000)
   \<and> snd (fst (reporting_Obtain ((NewLockImpl 0)\<lparr>failureReason := None\<rparr>))) = None
   \<and> Some ''Lock obtain time out: lock: held by another process'' =
       Some (timeout_reason fmt_lock0 \<lparr>self = 2, failureReason = Some ''held by another process''\<rparr>)"
proof -
  have first: "snd (fst (reporting_Obtain ((NewLockImpl 0)\<lparr>failureReason := None\<rparr>))) = None"
    by (simp add: reporting_Obtain_def)
  from ObtainWithin_timeout_reason [OF reporting_run first] reporting_run first
  show ?thesis
    by simp
qed

text \<open>
  What is surfaced is the \<^verbatim>\<open>failureReason\<close> field as the attempts left it. An error
  that a poll inside the loop merely returns is overwritten by the next poll or by the
  time-out error.
\<close>

lemma ObtainWithin_flaky_run:
  "ObtainWithin flaky_Obtain fmt_lock0 1000 (NewLockImpl 0) =
     Some (Return (False, Some ''Lock obtain time out: lock''),
           \<lparr>self = 2, failureReason = None\<rparr>, 1000)"
  by (simp add: ObtainWithin_def Let_def assert2_def sle_int64_facts not_forever_facts
      int64_quo_1000 obtain_poll_retry obtain_poll_timeout flaky_Obtain_def NewLockImpl_def
      timeout_reason_def fmt_lock0_def)

section \<open>Lock: polling for 2500 ms\<close>

text \<open>
  Claim C6: with a backend whose \<^verbatim>\<open>Obtain\<close> always answers \<^verbatim>\<open>(false, nil)\<close>,
  \<^verbatim>\<open>ObtainWithin(2500)\<close> returns \<^verbatim>\<open>ok = false\<close> and the time-out error after three
  \<^verbatim>\<open>Obtain\<close> attempts (the lock it ends with has gone through \<^verbatim>\<open>Obtain\<close> three times)
  and two sleeps of 1000 ms.
\<close>

theorem ObtainWithin_2500_busy:
  assumes busy: "\<forall>l. fst (Obtain l) = (False, None)"
  shows "ObtainWithin Obtain fmt_lock 2500 lock =
     (let l1 = snd (Obtain (lock\<lparr>failureReason := None\<rparr>));
          l2 = snd (Obtain l1);
          l3 = snd (Obtain l2)
      in Some (Return (False, Some (timeout_reason fmt_lock l3)), l3, 2000))"
proof -
  define l1 where "l1 = snd (Obtain (lock\<lparr>failureReason := None\<rparr>))"
  define l2 where "l2 = snd (Obtain l1)"
  define l3 where "l3 = snd (Obtain l2)"
  have "obtain_poll Obtain fmt_lock 2500 2 0 (False, None) l1 0
      = obtain_poll Obtain fmt_lock 2500 2 1 (False, None) l2 1000"
    using busy by (simp add: obtain_poll_retry sle_int64_facts l2_def)
  also have "\<dots> = obtain_poll Obtain fmt_lock 2500 2 2 (False, None) l3 2000"
    using busy by (simp add: obtain_poll_retry sle_int64_facts l3_def)
  also have "\<dots> = Some ((False, Some (timeout_reason fmt_lock l3)), l3, 2000)"
    by (simp add: obtain_poll_timeout sle_int64_facts not_forever_facts)
  finally have "obtain_poll Obtain fmt_lock 2500 2 0 (False, None) l1 0
      = Some ((False, Some (timeout_reason fmt_lock l3)), l3, 2000)" .
  then show ?thesis
    using busy
    by (simp add: ObtainWithin_def Let_def assert2_def sle_int64_facts int64_quo_2500
        flip: l1_def l2_def l3_def)
qed

theorem ObtainWithin_2500_busy_witness:
  "fst (busy_Obtain \<lparr>self = 0, failureReason = None\<rparr>) = (False, None)
   \<and> ObtainWithin busy_Obtain fmt_lock0 2500 (NewLockImpl 0) =
      Some (Return (False, Some ''Lock obtain time out: lock''),
            \<lparr>self = 3, failureReason = None\<rparr>, 2000)"
proof -
  have "\<forall>l. fst (busy_Obtain l) = (False, None)"
    by (simp add: busy_Obtain_simps)
  from ObtainWithin_2500_busy [OF this, of fmt_lock0 "NewLockImpl 0"] show ?thesis
    by (simp add: busy_Obtain_simps NewLockImpl_def timeout_reason_def fmt_lock0_def Let_def
        numeral_3_eq_3)
qed

section \<open>SlicedIndexInput: reading inside the window\<close>

text \<open>
  As long as the sum does not leave the \<^verbatim>\<open>int64\<close> range, the comparison of
  \<^verbatim>\<open>readInternal\<close> is the comparison of the integers.
\<close>

lemma sless_int64_no_overflow:
  fixes start len :: int64
  assumes "0 \<le> sint start" and "sint start + int n < 2 ^ 63"
  shows "(len <s start + of_nat n) = (sint len < sint start + int n)"
proof -
  have "start + of_nat n = word_of_int (sint start + int n)"
    by simp
  then have "sint (start + of_nat n) = signed_take_bit 63 (sint start + int n)"
    by (simp only: signed_of_int) simp
  also have "\<dots> = sint start + int n"
    using assms by (intro signed_take_bit_int_eq_self) simp_all
  finally show ?thesis
    by (simp add: word_sless_alt)
qed

text \<open>
  Claim C7: \<^verbatim>\<open>readInternal\<close> fails with the end-of-file error exactly when
  \<^verbatim>\<open>FilePointer() + len(buf) > length\<close> (the \<^verbatim>\<open>int64\<close> sum and comparison of the source),
  leaving buffer and reader as they were; otherwise it seeks the base reader to
  \<^verbatim>\<open>fileOffset + FilePointer()\<close> and the result is that of the base reader's
  \<^verbatim>\<open>ReadBytesBuffered(buf, false)\<close>. For a file pointer that is not negative and a
  sum within the \<^verbatim>\<open>int64\<close> range the condition is the one on the integers.
\<close>

theorem readInternal_window:
  "(length' in' <s FilePointer (BufferedIndexInput in') + of_nat (length buf) \<longrightarrow>
     readInternal FilePointer Seek ReadBytesBuffered fmt_in in' buf =
       (Some (''read past EOF: '' @ fmt_in in'), buf, in'))
   \<and> (\<not> length' in' <s FilePointer (BufferedIndexInput in') + of_nat (length buf) \<longrightarrow>
     readInternal FilePointer Seek ReadBytesBuffered fmt_in in' buf =
       (let res = ReadBytesBuffered
                    (Seek (base in') (fileOffset in' + FilePointer (BufferedIndexInput in'))) buf False
        in (fst res, fst (snd res), in'\<lparr>base := snd (snd res)\<rparr>)))
   \<and> (0 \<le> sint (FilePointer (BufferedIndexInput in'))
        \<and> sint (FilePointer (BufferedIndexInput in')) + int (length buf) < 2 ^ 63 \<longrightarrow>
      (length' in' <s FilePointer (BufferedIndexInput in') + of_nat (length buf)) =
      (sint (length' in') < sint (FilePointer (BufferedIndexInput in')) + int (length buf)))"
proof (intro conjI impI)
  assume "length' in' <s FilePointer (BufferedIndexInput in') + of_nat (length buf)"
  then show "readInternal FilePointer Seek ReadBytesBuffered fmt_in in' buf =
      (Some (''read past EOF: '' @ fmt_in in'), buf, in')"
    by (simp add: readInternal_def)
next
  assume "\<not> length' in' <s FilePointer (BufferedIndexInput in') + of_nat (length buf)"
  then show "readInternal FilePointer Seek ReadBytesBuffered fmt_in in' buf =
      (let res = ReadBytesBuffered
                   (Seek (base in') (fileOffset in' + FilePointer (BufferedIndexInput in'))) buf False
       in (fst res, fst (snd res), in'\<lparr>base := snd (snd res)\<rparr>))"
    by (simp add: readInternal_def Let_def)
next
  assume "0 \<le> sint (FilePointer (BufferedIndexInput in'))
      \<and> sint (FilePointer (BufferedIndexInput in')) + int (length buf) < 2 ^ 63"
  then show "(length' in' <s FilePointer (BufferedIndexInput in') + of_nat (length buf)) =
      (sint (length' in') < sint (FilePointer (BufferedIndexInput in')) + int (length buf))"
    by (intro sless_int64_no_overflow) simp_all
qed

lemma window_facts:
  "\<not> (4 :: int64) <s 0 + 4" "(4 :: int64) <s 4 + 1"
  by (simp_all add: word_sless_alt)

theorem readInternal_window_witness:
  "\<not> length' \<lparr>BufferedIndexInput = 0, base = 0, fileOffset = 20, length' = 4 :: int64\<rparr>
        <s file_FilePointer 0 + of_nat (length [0, 0, 0, 0 :: byte])
   \<and> readInternal file_FilePointer file_Seek file_ReadBytesBuffered fmt_slice0
        \<lparr>BufferedIndexInput = 0, base = 0, fileOffset = 20, length' = 4\<rparr> [0, 0, 0, 0]
      = (None, [20, 21, 22, 23], \<lparr>BufferedIndexInput = 0, base = 24, fileOffset = 20, length' = 4\<rparr>)
   \<and> length' \<lparr>BufferedIndexInput = 4, base = 24, fileOffset = 20, length' = 4 :: int64\<rparr>
        <s file_FilePointer 4 + of_nat (length [0 :: byte])
   \<and> readInternal file_FilePointer file_Seek file_ReadBytesBuffered fmt_slice0
        \<lparr>BufferedIndexInput = 4, base = 24, fileOffset = 20, length' = 4\<rparr> [0]
      = (Some ''read past EOF: slice'', [0],
         \<lparr>BufferedIndexInput = 4, base = 24, fileOffset = 20, length' = 4\<rparr>)
   \<and> 0 \<le> sint (file_FilePointer 4)
   \<and> sint (file_FilePointer 4) + int (length [0 :: byte]) < 2 ^ 63
   \<and> sint (4 :: int64) < sint (file_FilePointer 4) + int (length [0 :: byte])"
  using
    readInternal_window [of "\<lparr>BufferedIndexInput = 0, base = 0, fileOffset = 20, length' = 4\<rparr>"
      file_FilePointer "[0, 0, 0, 0]" file_Seek file_ReadBytesBuffered fmt_slice0]
    readInternal_window [of "\<lparr>BufferedIndexInput = 4, base = 24, fileOffset = 20, length' = 4\<rparr>"
      file_FilePointer "[0]" file_Seek file_ReadBytesBuffered fmt_slice0]
  by (simp add: window_facts file_FilePointer_def file_Seek_def file_ReadBytesBuffered_def
      fmt_slice0_def upt_rec)

section \<open>Directory: the default slicer\<close>

text \<open>
  Claim C8 as stated (the default \<^verbatim>\<open>CreateSlicer\<close> opens the input and returns a slicer
  over it) does not hold: on an open directory whose \<^verbatim>\<open>OpenInput\<close> succeeds it panics
  and returns no slicer.
\<close>

theorem CreateSlicer_counterexample:
  "open_ok () ''_0.cfs'' (NewIOContextBool False) = Inr 7
   \<and> IsOpen (NewDirectoryImpl () :: (unit, unit) DirectoryImpl)
   \<and> CreateSlicer open_ok (NewDirectoryImpl () :: (unit, unit) DirectoryImpl) ''_0.cfs''
        (NewIOContextBool False) []
      = (Panic ''Should be overrided, I guess'', [])
   \<and> CreateSlicer open_ok (NewDirectoryImpl () :: (unit, unit) DirectoryImpl) ''_0.cfs''
        (NewIOContextBool False) []
      \<noteq> (Return (Inr \<lparr>simpleIndexInputSlicer.base = 7\<rparr>), [])"
  by (simp add: CreateSlicer_def and_then_def panic_def open_ok_def NewDirectoryImpl_def)

text \<open>
  Claim C8, amended: the default \<^verbatim>\<open>CreateSlicer\<close> panics with "Should be overrided, I
  guess" for every directory, name and context, before \<^verbatim>\<open>EnsureOpen\<close> and \<^verbatim>\<open>OpenInput\<close>
  are reached and without writing to the log; a \<^verbatim>\<open>simpleIndexInputSlicer\<close> over a reader
  returns that same reader from \<^verbatim>\<open>openFullSlice\<close>, and its \<^verbatim>\<open>openSlice(desc, offset,
  length)\<close> builds a \<^verbatim>\<open>SlicedIndexInput\<close> over that reader with file offset \<open>offset\<close> and
  window length \<open>length\<close>.
\<close>

theorem CreateSlicer_panics:
  "CreateSlicer OpenInput d name context lg = (Panic ''Should be overrided, I guess'', lg)
   \<and> openFullSlice \<lparr>simpleIndexInputSlicer.base = r\<rparr> = r
   \<and> SlicedIndexInput.base
       (openSlice newBufferedIndexInputBySize BUFFER_SIZE fmt_base \<lparr>simpleIndexInputSlicer.base = r\<rparr>
          desc offset len) = r
   \<and> fileOffset
       (openSlice newBufferedIndexInputBySize BUFFER_SIZE fmt_base \<lparr>simpleIndexInputSlicer.base = r\<rparr>
          desc offset len) = offset
   \<and> length'
       (openSlice newBufferedIndexInputBySize BUFFER_SIZE fmt_base \<lparr>simpleIndexInputSlicer.base = r\<rparr>
          desc offset len) = len"
  by (simp add: CreateSlicer_def and_then_def panic_def openFullSlice_def openSlice_def
      newSlicedIndexInput_def newSlicedIndexInputBySize_def)

section \<open>Directory: the open-state check\<close>

text \<open>
  Claim C9 as stated (every Directory operation invoked on a closed directory ends in
  the panic of \<^verbatim>\<open>EnsureOpen\<close>) does not hold: the lock operations of \<^verbatim>\<open>DirectoryImpl\<close>
  never call \<^verbatim>\<open>EnsureOpen\<close>, and \<^verbatim>\<open>ClearLock\<close> on a closed directory without a lock
  factory returns a \<^verbatim>\<open>nil\<close> error as it does on an open one.
\<close>

theorem EnsureOpen_guard_counterexample:
  "\<not> IsOpen closed_directory
   \<and> ClearLock FSLockFactory_Clear closed_directory ''write.lock'' = Return (None, closed_directory)"
  by (simp add: ClearLock_def closed_directory_def NewDirectoryImpl_def)

text \<open>
  Claim C9, amended to the check itself: on a closed directory \<^verbatim>\<open>EnsureOpen\<close> panics
  (after logging that the directory is closed), so an operation that starts with it
  panics too and its own result is never returned; on an open directory \<^verbatim>\<open>EnsureOpen\<close>
  returns with the log untouched and the operation that follows runs as if the check
  were not there.
\<close>

theorem EnsureOpen_guard:
  "(\<not> IsOpen d \<longrightarrow>
      EnsureOpen d lg = (Panic ''this Directory is closed'', lg @ [''This Directory is closed.''])
      \<and> fst (and_then (EnsureOpen d) operation lg) = Panic ''this Directory is closed'')
   \<and> (IsOpen d \<longrightarrow>
      EnsureOpen d lg = (Return (), lg)
      \<and> and_then (EnsureOpen d) operation lg = operation () lg)"
  by (simp add: EnsureOpen_def and_then_def log_Print_def panic_def ret_def)

theorem EnsureOpen_guard_witness:
  "\<not> IsOpen closed_directory
   \<and> EnsureOpen closed_directory [] = (Panic ''this Directory is closed'', [''This Directory is closed.''])
   \<and> fst (and_then (EnsureOpen closed_directory) (\<lambda>_. ret (0 :: nat)) []) = Panic ''this Directory is closed''
   \<and> IsOpen (NewDirectoryImpl () :: (unit, unit) DirectoryImpl)
   \<and> EnsureOpen (NewDirectoryImpl () :: (unit, unit) DirectoryImpl) [] = (Return (), [])
   \<and> and_then (EnsureOpen (NewDirectoryImpl () :: (unit, unit) DirectoryImpl)) (\<lambda>_. ret (0 :: nat)) []
        = (Return 0, [])"
  using EnsureOpen_guard [of closed_directory "[]" "\<lambda>_. ret (0 :: nat)"]
    EnsureOpen_guard [of "NewDirectoryImpl () :: (unit, unit) DirectoryImpl" "[]" "\<lambda>_. ret (0 :: nat)"]
  by (simp add: closed_directory_def NewDirectoryImpl_def ret_def)

section \<open>Directory: clearing a lock without a factory\<close>

text \<open>
  Claim C10: \<^verbatim>\<open>ClearLock\<close> on a directory whose lock factory is \<^verbatim>\<open>nil\<close> returns a
  \<^verbatim>\<open>nil\<close> error and leaves the directory as it was, for every lock name and whatever
  the factory's \<^verbatim>\<open>Clear\<close> would do.
\<close>

theorem ClearLock_without_factory:
  "lockFactory d = None \<Longrightarrow> ClearLock Clear d name = Return (None, d)"
  by (simp add: ClearLock_def)

theorem ClearLock_without_factory_witness:
  "lockFactory (NewDirectoryImpl () :: (unit, string) DirectoryImpl) = None
   \<and> ClearLock FSLockFactory_Clear (NewDirectoryImpl () :: (unit, string) DirectoryImpl) ''write.lock''
      = Return (None, NewDirectoryImpl ())"
proof -
  have unset: "lockFactory (NewDirectoryImpl () :: (unit, string) DirectoryImpl) = None"
    by (simp add: NewDirectoryImpl_def)
  from ClearLock_without_factory [OF unset, of FSLockFactory_Clear "''write.lock''"] unset
  show ?thesis
    by simp
qed

end
